theory Spec2Isabelle
  imports Main "HOL-Library.Monad_Syntax"
begin

section \<open>Order access service (order.service.ts)\<close>

subsection \<open>Data model\<close>

text \<open>
  A JavaScript value that may be missing. \<open>Undefined\<close> is what reading the property
  yields when the key is not there or holds \<open>undefined\<close> (the service reads fields only
  through property access, which cannot tell the two apart, and JSON serialisation drops
  both); \<open>Null\<close> is an explicit \<open>null\<close>; \<open>Present v\<close> is a value.
\<close>

datatype 'a optional = Undefined | Null | Present 'a

text \<open>
  \<open>Pick<IOrder, 'id'>\<close>: any object with an \<open>id\<close>. The field is called \<open>ident\<close>
  because \<open>id\<close> is the identity function of HOL. The record scheme
  \<open>('i, 'z) order_id_scheme\<close> stands for the type parameter
  \<open>Type extends Pick<IOrder, 'id'>\<close>; the identifier is a \<open>string\<close> for \<open>IOrder\<close> and
  \<open>PartialUpdateOrder\<close>.
\<close>

record 'i order_id =
  ident :: 'i

text \<open>
  \<open>IOrder\<close> with its optional \<open>date\<close>; \<open>'d\<close> is the type of the date: the date library's
  \<open>Dayjs\<close> in memory, \<open>string\<close> on the wire (\<open>RestOf<T>\<close>). Every other field of the order
  lives in the extension part of the record and is copied by the object spread
  \<open>{...order, date: _}\<close>.
\<close>

record ('i, 'd) order = "'i order_id" +
  date :: "'d optional"

subsection \<open>Identity\<close>

definition getOrderIdentifier :: "(string, 'z) order_id_scheme \<Rightarrow> string" where
  "getOrderIdentifier order = ident order"

text \<open>
  \<open>compareOrder(o1: Pick<IOrder,'id'> | null, o2: Pick<IOrder,'id'> | null)\<close>: an argument
  is an object or \<open>null\<close> (\<open>None\<close>). An object is truthy and \<open>null\<close> is falsy, so the
  else-branch \<open>o1 === o2\<close> is reached only when one side is \<open>null\<close>; there it is true
  exactly when both are.
\<close>

definition compareOrder ::
  "(string, 'z) order_id_scheme option \<Rightarrow> (string, 'z) order_id_scheme option \<Rightarrow> bool" where
  "compareOrder o1 o2 =
     (case (o1, o2) of
        (Some a, Some b) \<Rightarrow> getOrderIdentifier a = getOrderIdentifier b
      | _ \<Rightarrow> o1 = o2)"

subsection \<open>Merging orders into a collection\<close>

text \<open>
  Modelled from the spec: \<open>isPresent\<close> of \<open>app/core/util/operators\<close>, which is not among
  the sources. The spec has the null and absent candidates dropped: a candidate is present
  when it is neither \<open>undefined\<close> nor \<open>null\<close>.
\<close>

definition isPresent :: "'a optional \<Rightarrow> bool" where
  "isPresent t = (t \<noteq> Undefined \<and> t \<noteq> Null)"

text \<open>The narrowing of the type guard: the value of a candidate that passed \<open>isPresent\<close>.\<close>

fun the_present :: "'a optional \<Rightarrow> 'a" where
  "the_present (Present v) = v"

text \<open>
  The callback of \<open>orders.filter\<close>, which pushes onto \<open>orderCollectionIdentifiers\<close> as it
  goes: the identifiers seen so far are passed along, \<open>includes\<close> is membership, \<open>push\<close>
  appends.
\<close>

fun filterOrdersToAdd ::
  "string list \<Rightarrow> (string, 'z) order_id_scheme list \<Rightarrow> (string, 'z) order_id_scheme list" where
  "filterOrdersToAdd orderCollectionIdentifiers [] = []"
| "filterOrdersToAdd orderCollectionIdentifiers (orderItem # rest) =
     (if getOrderIdentifier orderItem \<in> set orderCollectionIdentifiers
      then filterOrdersToAdd orderCollectionIdentifiers rest
      else orderItem #
        filterOrdersToAdd (orderCollectionIdentifiers @ [getOrderIdentifier orderItem]) rest)"

definition addOrderToCollectionIfMissing ::
  "(string, 'z) order_id_scheme list \<Rightarrow> (string, 'z) order_id_scheme optional list
   \<Rightarrow> (string, 'z) order_id_scheme list" where
  "addOrderToCollectionIfMissing orderCollection ordersToCheck =
     (let orders = map the_present (filter isPresent ordersToCheck)
      in if length orders > 0
         then (let orderCollectionIdentifiers = map getOrderIdentifier orderCollection;
                   ordersToAdd = filterOrdersToAdd orderCollectionIdentifiers orders
               in ordersToAdd @ orderCollection)
         else orderCollection)"

text \<open>
  The merge as the specification words it: of the present candidates, in the order given,
  those whose identifier occurs neither in the collection nor in an earlier candidate,
  followed by the collection.
\<close>

definition accepted_candidates ::
  "(string, 'z) order_id_scheme list \<Rightarrow> (string, 'z) order_id_scheme list
   \<Rightarrow> (string, 'z) order_id_scheme list" where
  "accepted_candidates collection candidates =
     map (\<lambda>k. candidates ! k)
       (filter (\<lambda>k. getOrderIdentifier (candidates ! k) \<notin> set (map getOrderIdentifier collection)
                   \<and> getOrderIdentifier (candidates ! k)
                       \<notin> set (map getOrderIdentifier (take k candidates)))
          [0..<length candidates])"

definition merge_spec ::
  "(string, 'z) order_id_scheme list \<Rightarrow> (string, 'z) order_id_scheme optional list
   \<Rightarrow> (string, 'z) order_id_scheme list" where
  "merge_spec collection candidates =
     accepted_candidates collection (map the_present (filter isPresent candidates)) @ collection"

text \<open>
  References. Whether the caller gets its own array back is a question about references,
  so the arrays of orders live in a store, an array's reference being its index there.
  \<open>[...ordersToAdd, ...orderCollection]\<close> allocates a new array; \<open>return orderCollection\<close>
  hands the reference of the argument back. (The temporaries of the function are arrays
  too, but no reference to them leaves it; they are not put in the store.)
\<close>

type_synonym 'a array_store = "'a list list"

definition new_array :: "'a list \<Rightarrow> 'a array_store \<Rightarrow> nat \<times> 'a array_store" where
  "new_array elements store = (length store, store @ [elements])"

definition addOrderToCollectionIfMissing_ref ::
  "nat \<Rightarrow> (string, 'z) order_id_scheme optional list \<Rightarrow> (string, 'z) order_id_scheme array_store
   \<Rightarrow> nat \<times> (string, 'z) order_id_scheme array_store" where
  "addOrderToCollectionIfMissing_ref orderCollection ordersToCheck store =
     (let orders = map the_present (filter isPresent ordersToCheck)
      in if length orders > 0
         then (let orderCollectionIdentifiers = map getOrderIdentifier (store ! orderCollection);
                   ordersToAdd = filterOrdersToAdd orderCollectionIdentifiers orders
               in new_array (ordersToAdd @ store ! orderCollection) store)
         else (orderCollection, store))"

text \<open>Repeated calls, each on the result of the one before.\<close>

definition addOrderToCollectionIfMissing_repeatedly ::
  "(string, 'z) order_id_scheme list \<Rightarrow> (string, 'z) order_id_scheme optional list list
   \<Rightarrow> (string, 'z) order_id_scheme list" where
  "addOrderToCollectionIfMissing_repeatedly orderCollection calls =
     foldl addOrderToCollectionIfMissing orderCollection calls"

subsection \<open>The date library\<close>

text \<open>
  The service imports dayjs, whose dates wrap the \<open>Date\<close> of ECMAScript; neither is part
  of the repository. They are modelled as far as the date conversion uses them: the
  serialiser \<open>toJSON\<close> in full, the parser on the strings of the ISO format that the
  serialiser writes (with or without milliseconds). A valid date is an instant, given
  here by its reading in UTC in the proleptic Gregorian calendar.
\<close>

record date_time =
  year :: int
  month :: nat
  day :: nat
  hour :: nat
  minute :: nat
  second :: nat
  millisecond :: nat

datatype dayjs = Dayjs date_time | Invalid_Date

definition leap_year :: "int \<Rightarrow> bool" where
  "leap_year y = (y mod 4 = 0 \<and> (y mod 100 \<noteq> 0 \<or> y mod 400 = 0))"

definition days_in_month :: "int \<Rightarrow> nat \<Rightarrow> nat" where
  "days_in_month y m =
     (if m = 2 then (if leap_year y then 29 else 28)
      else if m = 4 \<or> m = 6 \<or> m = 9 \<or> m = 11 then 30 else 31)"

text \<open>
  The time values of a \<open>Date\<close> reach 100 000 000 days to either side of 1970-01-01:
  from -271821-04-20T00:00:00.000Z to +275760-09-13T00:00:00.000Z.
\<close>

definition in_time_range :: "date_time \<Rightarrow> bool" where
  "in_time_range t =
     ((- 271821 < year t \<and> year t < 275760)
      \<or> (year t = 275760 \<and> (month t < 9 \<or> (month t = 9 \<and> (day t < 13
            \<or> (day t = 13 \<and> hour t = 0 \<and> minute t = 0 \<and> second t = 0
                \<and> millisecond t = 0)))))
      \<or> (year t = - 271821 \<and> (4 < month t \<or> (month t = 4 \<and> 20 \<le> day t))))"

definition valid_date_time :: "date_time \<Rightarrow> bool" where
  "valid_date_time t =
     (1 \<le> month t \<and> month t \<le> 12 \<and> 1 \<le> day t \<and> day t \<le> days_in_month (year t) (month t)
      \<and> hour t \<le> 23 \<and> minute t \<le> 59 \<and> second t \<le> 59 \<and> millisecond t \<le> 999
      \<and> in_time_range t)"

text \<open>Decimal digits, and a number written with a fixed count of them.\<close>

definition digit :: "nat \<Rightarrow> char" where
  "digit k = char_of (48 + k)"

fun pad :: "nat \<Rightarrow> nat \<Rightarrow> string" where
  "pad 0 n = []"
| "pad (Suc w) n = pad w (n div 10) @ [digit (n mod 10)]"

text \<open>
  \<open>Date.prototype.toISOString\<close>: \<open>YYYY-MM-DDTHH:mm:ss.sssZ\<close>, always with the
  milliseconds; a year outside 0 to 9999 is written with a sign and six digits.
\<close>

definition year_string :: "int \<Rightarrow> string" where
  "year_string y =
     (if 0 \<le> y \<and> y \<le> 9999 then pad 4 (nat y)
      else (if y < 0 then ''-'' else ''+'') @ pad 6 (nat \<bar>y\<bar>))"

definition toISOString :: "date_time \<Rightarrow> string" where
  "toISOString t =
     year_string (year t) @ ''-'' @ pad 2 (month t) @ ''-'' @ pad 2 (day t)
     @ ''T'' @ pad 2 (hour t) @ '':'' @ pad 2 (minute t) @ '':'' @ pad 2 (second t)
     @ ''.'' @ pad 3 (millisecond t) @ ''Z''"

text \<open>\<open>toJSON\<close> of dayjs: the ISO string of a valid date, \<open>null\<close> for an invalid one.\<close>

definition dayjs_toJSON :: "dayjs \<Rightarrow> string option" where
  "dayjs_toJSON d = (case d of Dayjs t \<Rightarrow> Some (toISOString t) | Invalid_Date \<Rightarrow> None)"

text \<open>Reading the ISO format: digits, separators, the fields.\<close>

definition digit_value :: "char \<Rightarrow> nat option" where
  "digit_value c =
     (let n = of_char c :: nat in if 48 \<le> n \<and> n \<le> 57 then Some (n - 48) else None)"

fun digits_value :: "nat \<Rightarrow> string \<Rightarrow> nat option" where
  "digits_value acc [] = Some acc"
| "digits_value acc (c # cs) =
     (case digit_value c of None \<Rightarrow> None | Some v \<Rightarrow> digits_value (10 * acc + v) cs)"

definition fixed_digits :: "nat \<Rightarrow> string \<Rightarrow> (nat \<times> string) option" where
  "fixed_digits w s =
     (if length s < w then None
      else map_option (\<lambda>v. (v, drop w s)) (digits_value 0 (take w s)))"

definition literal :: "char \<Rightarrow> string \<Rightarrow> string option" where
  "literal c s = (case s of [] \<Rightarrow> None | x # rest \<Rightarrow> if x = c then Some rest else None)"

definition parse_year :: "string \<Rightarrow> (int \<times> string) option" where
  "parse_year s =
     (case s of
        [] \<Rightarrow> None
      | c # rest \<Rightarrow>
          if c = CHR ''+'' then map_option (\<lambda>(v, r). (int v, r)) (fixed_digits 6 rest)
          else if c = CHR ''-''
          then (case fixed_digits 6 rest of
                  None \<Rightarrow> None
                | Some (v, r) \<Rightarrow> if v = 0 then None else Some (- int v, r))
          else map_option (\<lambda>(v, r). (int v, r)) (fixed_digits 4 s))"

definition parse_fraction :: "string \<Rightarrow> nat option" where
  "parse_fraction s =
     (if s = ''Z'' then Some 0
      else do {
        r \<leftarrow> literal CHR ''.'' s;
        (ms, r') \<leftarrow> fixed_digits 3 r;
        if r' = ''Z'' then Some ms else None
      })"

text \<open>
  The strings \<open>YYYY-MM-DDTHH:mm:ssZ\<close> and \<open>YYYY-MM-DDTHH:mm:ss.sssZ\<close> (the year also
  in its signed form) that name a valid date, and the date they name.
\<close>

definition parse_iso_utc :: "string \<Rightarrow> date_time option" where
  "parse_iso_utc s = do {
     (y, s1) \<leftarrow> parse_year s;
     s2 \<leftarrow> literal CHR ''-'' s1;
     (mo, s3) \<leftarrow> fixed_digits 2 s2;
     s4 \<leftarrow> literal CHR ''-'' s3;
     (d, s5) \<leftarrow> fixed_digits 2 s4;
     s6 \<leftarrow> literal CHR ''T'' s5;
     (h, s7) \<leftarrow> fixed_digits 2 s6;
     s8 \<leftarrow> literal CHR '':'' s7;
     (mi, s9) \<leftarrow> fixed_digits 2 s8;
     s10 \<leftarrow> literal CHR '':'' s9;
     (sec, s11) \<leftarrow> fixed_digits 2 s10;
     ms \<leftarrow> parse_fraction s11;
     (let t = \<lparr>year = y, month = mo, day = d, hour = h, minute = mi, second = sec,
                millisecond = ms\<rparr>
      in if valid_date_time t then Some t else None)
   }"

text \<open>
  \<open>dayjs(string)\<close>. A string ending in \<open>Z\<close> goes to \<open>new Date(string)\<close>, which reads the
  ISO format as above. What the library makes of any other string (other formats, local
  time, element values out of range, which engines treat differently) is left open: it
  is the parameter \<open>other\<close>.
\<close>

definition dayjs_parse :: "(string \<Rightarrow> dayjs) \<Rightarrow> string \<Rightarrow> dayjs" where
  "dayjs_parse other s = (case parse_iso_utc s of Some t \<Rightarrow> Dayjs t | None \<Rightarrow> other s)"

text \<open>For the examples: every string that is not read as above is taken for an invalid date.\<close>

definition other_invalid :: "string \<Rightarrow> dayjs" where
  "other_invalid s = Invalid_Date"

subsection \<open>Date conversion\<close>

text \<open>
  The conversions take the date library as arguments: \<open>toJSON\<close> is the serialiser of
  its date type \<open>'d\<close> (\<open>None\<close> when it returns \<open>null\<close>), \<open>dayjs\<close> its parser. The
  service uses them with \<open>dayjs_toJSON\<close> and \<open>dayjs_parse\<close>.

  \<open>order.date?.toJSON() ?? null\<close>: a missing or \<open>null\<close> date gives \<open>undefined\<close>, which
  \<open>??\<close> turns into \<open>null\<close>, as it does a \<open>null\<close> from \<open>toJSON\<close>. The object literal always
  sets the key \<open>date\<close>.
\<close>

definition convertDateFromClient ::
  "('d \<Rightarrow> string option) \<Rightarrow> ('i, 'd, 'z) order_scheme \<Rightarrow> ('i, string, 'z) order_scheme" where
  "convertDateFromClient toJSON order =
     \<lparr>ident = ident order,
      date = (case date order of
                Present d \<Rightarrow> (case toJSON d of Some s \<Rightarrow> Present s | None \<Rightarrow> Null)
              | _ \<Rightarrow> Null),
      \<dots> = order.more order\<rparr>"

text \<open>
  \<open>restOrder.date ? dayjs(restOrder.date) : undefined\<close>: a string is truthy unless it is
  empty; \<open>null\<close> and \<open>undefined\<close> are falsy.
\<close>

definition convertDateFromServer ::
  "(string \<Rightarrow> 'd) \<Rightarrow> ('i, string, 'z) order_scheme \<Rightarrow> ('i, 'd, 'z) order_scheme" where
  "convertDateFromServer dayjs restOrder =
     \<lparr>ident = ident restOrder,
      date = (case date restOrder of
                Present s \<Rightarrow> (if s \<noteq> '''' then Present (dayjs s) else Undefined)
              | _ \<Rightarrow> Undefined),
      \<dots> = order.more restOrder\<rparr>"

text \<open>
  \<open>HttpResponse<T>\<close>: the body, \<open>null\<close> being \<open>None\<close>; status, headers and the rest are the
  extension part, which \<open>res.clone({body: _})\<close> keeps.
\<close>

record 'b http_response =
  body :: "'b option"

definition convertResponseFromServer ::
  "(string \<Rightarrow> 'd) \<Rightarrow> (('i, string, 'z) order_scheme, 'h) http_response_scheme
   \<Rightarrow> (('i, 'd, 'z) order_scheme, 'h) http_response_scheme" where
  "convertResponseFromServer dayjs res =
     \<lparr>body = (case body res of
                Some b \<Rightarrow> Some (convertDateFromServer dayjs b)
              | None \<Rightarrow> None),
      \<dots> = http_response.more res\<rparr>"

definition convertResponseArrayFromServer ::
  "(string \<Rightarrow> 'd) \<Rightarrow> (('i, string, 'z) order_scheme list, 'h) http_response_scheme
   \<Rightarrow> (('i, 'd, 'z) order_scheme list, 'h) http_response_scheme" where
  "convertResponseArrayFromServer dayjs res =
     \<lparr>body = (case body res of
                Some items \<Rightarrow> Some (map (\<lambda>item. convertDateFromServer dayjs item) items)
              | None \<Rightarrow> None),
      \<dots> = http_response.more res\<rparr>"

subsection \<open>Observables and the HTTP client\<close>

text \<open>
  What a subscriber of an observable receives: values, then possibly an error or the
  completion. An observable is the sequence of its notifications.
\<close>

datatype ('e, 'v) notification = Next 'v | Error 'e | Complete

type_synonym ('e, 'v) observable = "('e, 'v) notification list"

text \<open>The operator \<open>map\<close> of rxjs: the function is applied to every value; an error and the
  completion pass through.\<close>

fun map_next :: "('v \<Rightarrow> 'w) \<Rightarrow> ('e, 'v) notification \<Rightarrow> ('e, 'w) notification" where
  "map_next f (Next v) = Next (f v)"
| "map_next f (Error e) = Error e"
| "map_next f Complete = Complete"

definition rx_map :: "('v \<Rightarrow> 'w) \<Rightarrow> ('e, 'v) observable \<Rightarrow> ('e, 'w) observable" where
  "rx_map f source = map (map_next f) source"

text \<open>
  The observable of one HTTP request: the response and the completion, or the failure
  (transport failures and failure statuses alike).
\<close>

definition http_observable :: "'e + 'r \<Rightarrow> ('e, 'r) observable" where
  "http_observable outcome = (case outcome of Inr res \<Rightarrow> [Next res, Complete] | Inl e \<Rightarrow> [Error e])"

datatype http_method = GET | POST | PUT | PATCH | DELETE

record ('b, 'p) http_request =
  request_method :: http_method
  url :: string
  payload :: "'b option"
  params :: "'p option"

text \<open>
  The \<open>HttpClient\<close> the service is constructed with: the requests it was handed so far, and
  the remote end, which answers a request with a response or a failure.
\<close>

record ('b, 'p, 'e, 'r) http_client =
  sent :: "('b, 'p) http_request list"
  backend :: "('b, 'p) http_request \<Rightarrow> 'e + 'r"

definition http_send ::
  "('b, 'p) http_request \<Rightarrow> ('b, 'p, 'e, 'r) http_client
   \<Rightarrow> ('e, 'r) observable \<times> ('b, 'p, 'e, 'r) http_client" where
  "http_send request http = (http_observable (backend http request), http\<lparr>sent := sent http @ [request]\<rparr>)"

subsection \<open>Requests\<close>

definition partialUpdate ::
  "('d \<Rightarrow> string option) \<Rightarrow> (string \<Rightarrow> 'd) \<Rightarrow> string \<Rightarrow> (string, 'd, 'z) order_scheme
   \<Rightarrow> ((string, string, 'z) order_scheme, 'p, 'e,
        ((string, string, 'z) order_scheme, 'h) http_response_scheme) http_client
   \<Rightarrow> ('e, ((string, 'd, 'z) order_scheme, 'h) http_response_scheme) observable
      \<times> ((string, string, 'z) order_scheme, 'p, 'e,
         ((string, string, 'z) order_scheme, 'h) http_response_scheme) http_client" where
  "partialUpdate toJSON dayjs resourceUrl order http =
     (let copy = convertDateFromClient toJSON order;
          (response, http') =
             http_send \<lparr>request_method = PATCH, url = resourceUrl @ ''/'' @ getOrderIdentifier order,
                        payload = Some copy, params = None\<rparr> http
      in (rx_map (\<lambda>res. convertResponseFromServer dayjs res) response, http'))"

text \<open>
  \<open>createRequestOption\<close> (\<open>app/core/request/request-util\<close>) is not among the sources; it is
  a parameter, and its result is handed to the client as the query parameters.
\<close>

definition query ::
  "('q \<Rightarrow> 'p) \<Rightarrow> (string \<Rightarrow> 'd) \<Rightarrow> string \<Rightarrow> 'q
   \<Rightarrow> ('b, 'p, 'e, ((string, string, 'z) order_scheme list, 'h) http_response_scheme) http_client
   \<Rightarrow> ('e, ((string, 'd, 'z) order_scheme list, 'h) http_response_scheme) observable
      \<times> ('b, 'p, 'e, ((string, string, 'z) order_scheme list, 'h) http_response_scheme) http_client" where
  "query createRequestOption dayjs resourceUrl req http =
     (let options = createRequestOption req;
          (response, http') =
             http_send \<lparr>request_method = GET, url = resourceUrl, payload = None, params = Some options\<rparr> http
      in (rx_map (\<lambda>res. convertResponseArrayFromServer dayjs res) response, http'))"

subsection \<open>Fan-out join\<close>

text \<open>
  \<open>combineLatest\<close> of rxjs, as its subscriber works: \<open>latest\<close> is the array of the last
  value of every source (\<open>None\<close> while a source has given none), \<open>active\<close> counts the
  sources that have not completed, \<open>delivered\<close> is what the join has delivered to its own
  subscriber, and \<open>closed\<close> says that it has delivered an error or its completion and
  listens no longer.
\<close>

record ('e, 'v) join =
  latest :: "'v option list"
  active :: nat
  delivered :: "('e, 'v list) notification list"
  closed :: bool

definition join_start :: "nat \<Rightarrow> ('e, 'v) join" where
  "join_start n = \<lparr>latest = replicate n None, active = n, delivered = [], closed = False\<rparr>"

text \<open>
  One notification of source \<open>i\<close>. A value is stored, and once every source has given one
  a copy of the array is delivered; an error is delivered at once and ends the join; the
  completion of the last active source completes the join.
\<close>

fun join_notify :: "nat \<Rightarrow> ('e, 'v) notification \<Rightarrow> ('e, 'v) join \<Rightarrow> ('e, 'v) join" where
  "join_notify i (Next v) j =
     (if closed j then j
      else (let values = (latest j)[i := Some v]
            in j\<lparr>latest := values,
                 delivered := delivered j @ (if None \<notin> set values then [Next (map the values)] else [])\<rparr>))"
| "join_notify i (Error e) j =
     (if closed j then j else j\<lparr>delivered := delivered j @ [Error e], closed := True\<rparr>)"
| "join_notify i Complete j =
     (if closed j then j
      else if active j - 1 = 0
           then j\<lparr>active := 0, delivered := delivered j @ [Complete], closed := True\<rparr>
           else j\<lparr>active := active j - 1\<rparr>)"

definition join_source :: "nat \<Rightarrow> ('e, 'v) observable \<Rightarrow> ('e, 'v) join \<Rightarrow> ('e, 'v) join" where
  "join_source i source j = foldl (\<lambda>j' n. join_notify i n j') j source"

text \<open>
  The sources run at the same time; \<open>arrival\<close> lists them in the order in which they
  deliver (an HTTP request delivers its response and its completion together). With no
  source at all the join completes at once and delivers no value.
\<close>

definition combineLatest ::
  "('e, 'v) observable list \<Rightarrow> nat list \<Rightarrow> ('e, 'v list) observable" where
  "combineLatest sources arrival =
     (if sources = [] then [Complete]
      else delivered (foldl (\<lambda>j i. if i < length sources then join_source i (sources ! i) j else j)
                     (join_start (length sources)) arrival))"

subsection \<open>Shipping\<close>

text \<open>
  Modelled from the spec: \<open>IGoodInOrder\<close> (\<open>good-in-order.model\<close>, not among the sources),
  with the three fields the spec lists. The service casts the amounts to \<open>number\<close> and the
  identifier to \<open>string\<close>; \<open>'n\<close> is the number type, of which only the subtraction is
  used.
\<close>

record 'n good_in_order =
  good_id :: string
  good_amount :: 'n
  good_in_order_amount :: 'n

text \<open>
  Modelled from the spec: the Good access service (\<open>GoodService\<close>, not among the sources),
  whose one operation updates the quantity of a Good given its identifier and a new
  amount, and returns an HTTP response envelope. \<open>update_calls\<close> are the calls it has
  received, \<open>update_outcome k\<close> is how the remote end answers the call number \<open>k\<close>.
\<close>

record ('n, 'e, 'r) good_service =
  update_calls :: "(string \<times> 'n) list"
  update_outcome :: "nat \<Rightarrow> 'e + 'r"

definition updateAmountByGoodId ::
  "string \<Rightarrow> 'n \<Rightarrow> ('n, 'e, 'r) good_service \<Rightarrow> ('e, 'r) observable \<times> ('n, 'e, 'r) good_service" where
  "updateAmountByGoodId goodId amount goodService =
     (http_observable (update_outcome goodService (length (update_calls goodService))),
      goodService\<lparr>update_calls := update_calls goodService @ [(goodId, amount)]\<rparr>)"

text \<open>\<open>goodsInOrder.map(goodInOrder => ...)\<close>, the collaborator passed along.\<close>

fun map_updates ::
  "('n::minus, 'z) good_in_order_scheme list \<Rightarrow> ('n, 'e, 'r) good_service
   \<Rightarrow> ('e, 'r) observable list \<times> ('n, 'e, 'r) good_service" where
  "map_updates [] goodService = ([], goodService)"
| "map_updates (goodInOrder # rest) goodService =
     (let diff = good_amount goodInOrder - good_in_order_amount goodInOrder;
          (update, goodService') = updateAmountByGoodId (good_id goodInOrder) diff goodService;
          (updates, goodService'') = map_updates rest goodService'
      in (update # updates, goodService''))"

definition decrementGoodsCountOnShip ::
  "('n::minus, 'z) good_in_order_scheme list \<Rightarrow> ('n, 'e, 'r) good_service
   \<Rightarrow> (nat list \<Rightarrow> ('e, 'r list) observable) \<times> ('n, 'e, 'r) good_service" where
  "decrementGoodsCountOnShip goodsInOrder goodService =
     (let (updates, goodService') = map_updates goodsInOrder goodService
      in (combineLatest updates, goodService'))"

subsection \<open>Sort directive\<close>

text \<open>
  Modelled from the spec: the constants \<open>ASC\<close> and \<open>DESC\<close> of
  \<open>config/navigation.constants\<close>, which is not among the sources. The spec gives the sort
  parameter the forms \<open>"<field>,asc"\<close> and \<open>"<field>,desc"\<close>.
\<close>

definition ASC :: string where
  "ASC = ''asc''"

definition DESC :: string where
  "DESC = ''desc''"

text \<open>The two fields the service retains, with their initial values.\<close>

record sort_state =
  predicate :: string
  ascending :: bool

definition initial_sort_state :: sort_state where
  "initial_sort_state = \<lparr>predicate = ''id'', ascending = True\<rparr>"

text \<open>
  \<open>getSortQueryParam(predicate = this.predicate, ascending = this.ascending)\<close>: an omitted
  argument (\<open>None\<close>) takes the default from the service.
\<close>

definition getSortQueryParam :: "sort_state \<Rightarrow> string option \<Rightarrow> bool option \<Rightarrow> string list" where
  "getSortQueryParam this predicate_arg ascending_arg =
     (let p = (case predicate_arg of None \<Rightarrow> predicate this | Some v \<Rightarrow> v);
          a = (case ascending_arg of None \<Rightarrow> ascending this | Some v \<Rightarrow> v);
          ascendingQueryParam = (if a then ASC else DESC)
      in if p = '''' then [] else [p @ '','' @ ascendingQueryParam])"

section \<open>Auxiliary facts\<close>

subsection \<open>The filter of the merge\<close>

lemma upt_Suc_shift: "[0..<Suc n] = 0 # map Suc [0..<n]"
  by (simp add: upt_conv_Cons map_Suc_upt del: upt_Suc)

text \<open>The stateful filter keeps exactly the positions whose identifier is new.\<close>

lemma filterOrdersToAdd_index:
  "filterOrdersToAdd ids ps =
     map (\<lambda>k. ps ! k)
       (filter (\<lambda>k. getOrderIdentifier (ps ! k) \<notin> set ids
                   \<and> getOrderIdentifier (ps ! k) \<notin> set (map getOrderIdentifier (take k ps)))
          [0..<length ps])"
proof (induction ps arbitrary: ids)
  case Nil
  show ?case by simp
next
  case (Cons x xs)
  have shift: "[0..<length (x # xs)] = 0 # map Suc [0..<length xs]"
    using upt_Suc_shift [of "length xs"] by simp
  show ?case
  proof (cases "getOrderIdentifier x \<in> set ids")
    case True
    have "filterOrdersToAdd ids (x # xs) = filterOrdersToAdd ids xs"
      using True by simp
    also have "\<dots> = map (\<lambda>k. xs ! k)
       (filter (\<lambda>k. getOrderIdentifier (xs ! k) \<notin> set ids
                   \<and> getOrderIdentifier (xs ! k) \<notin> set (map getOrderIdentifier (take k xs)))
          [0..<length xs])"
      by (rule Cons.IH)
    also have "\<dots> = map (\<lambda>k. (x # xs) ! k)
       (filter (\<lambda>k. getOrderIdentifier ((x # xs) ! k) \<notin> set ids
                   \<and> getOrderIdentifier ((x # xs) ! k)
                       \<notin> set (map getOrderIdentifier (take k (x # xs))))
          [0..<length (x # xs)])"
    proof -
      have "filter (\<lambda>k. getOrderIdentifier (xs ! k) \<notin> set ids
                   \<and> getOrderIdentifier (xs ! k) \<notin> set (map getOrderIdentifier (take k xs)))
          [0..<length xs]
        = filter (\<lambda>k. getOrderIdentifier (xs ! k) \<notin> set ids
                   \<and> getOrderIdentifier (xs ! k)
                       \<notin> set (map getOrderIdentifier (take (Suc k) (x # xs))))
          [0..<length xs]"
        using True by (intro filter_cong refl) auto
      then show ?thesis
        unfolding shift using True by (simp add: filter_map comp_def)
    qed
    finally show ?thesis .
  next
    case False
    have "filterOrdersToAdd ids (x # xs)
        = x # filterOrdersToAdd (ids @ [getOrderIdentifier x]) xs"
      using False by simp
    also have "filterOrdersToAdd (ids @ [getOrderIdentifier x]) xs = map (\<lambda>k. xs ! k)
       (filter (\<lambda>k. getOrderIdentifier (xs ! k) \<notin> set (ids @ [getOrderIdentifier x])
                   \<and> getOrderIdentifier (xs ! k) \<notin> set (map getOrderIdentifier (take k xs)))
          [0..<length xs])"
      by (rule Cons.IH)
    also have "filter (\<lambda>k. getOrderIdentifier (xs ! k) \<notin> set (ids @ [getOrderIdentifier x])
                   \<and> getOrderIdentifier (xs ! k) \<notin> set (map getOrderIdentifier (take k xs)))
          [0..<length xs]
        = filter (\<lambda>k. getOrderIdentifier (xs ! k) \<notin> set ids
                   \<and> getOrderIdentifier (xs ! k)
                       \<notin> set (map getOrderIdentifier (take (Suc k) (x # xs))))
          [0..<length xs]"
      by (intro filter_cong refl) auto
    finally show ?thesis
      unfolding shift using False by (simp add: filter_map comp_def)
  qed
qed

lemma filterOrdersToAdd_fresh:
  "set (map getOrderIdentifier (filterOrdersToAdd ids ps)) \<inter> set ids = {}"
proof (induction ps arbitrary: ids)
  case Nil
  show ?case by simp
next
  case (Cons x xs)
  show ?case
    using Cons.IH [of ids] Cons.IH [of "ids @ [getOrderIdentifier x]"] by auto
qed

lemma filterOrdersToAdd_distinct:
  "distinct (map getOrderIdentifier (filterOrdersToAdd ids ps))"
proof (induction ps arbitrary: ids)
  case Nil
  show ?case by simp
next
  case (Cons x xs)
  show ?case
    using Cons.IH filterOrdersToAdd_fresh [of "ids @ [getOrderIdentifier x]" xs]
    by auto
qed

lemma addOrderToCollectionIfMissing_distinct:
  assumes "distinct (map getOrderIdentifier coll)"
  shows "distinct (map getOrderIdentifier (addOrderToCollectionIfMissing coll cands))"
  using assms filterOrdersToAdd_distinct [of "map getOrderIdentifier coll"]
    filterOrdersToAdd_fresh [of "map getOrderIdentifier coll"]
  by (auto simp: addOrderToCollectionIfMissing_def Let_def)

lemma no_present_candidate:
  "(filter isPresent ordersToCheck = []) = (set ordersToCheck \<subseteq> {Undefined, Null})"
  by (auto simp: filter_empty_conv isPresent_def)

subsection \<open>Writing and reading a date\<close>

lemma digit_value_digit: "k < 10 \<Longrightarrow> digit_value (digit k) = Some k"
  by (simp add: digit_value_def digit_def)

lemma digit_not_sign: "k < 10 \<Longrightarrow> digit k \<noteq> CHR ''+'' \<and> digit k \<noteq> CHR ''-''"
proof -
  assume k: "k < 10"
  have "digit_value CHR ''+'' = None" "digit_value CHR ''-'' = None"
    by (simp_all add: digit_value_def)
  then show ?thesis using digit_value_digit [OF k] by auto
qed

lemma digits_value_append:
  "digits_value acc (xs @ ys) =
     (case digits_value acc xs of None \<Rightarrow> None | Some a \<Rightarrow> digits_value a ys)"
  by (induction xs arbitrary: acc) (simp_all split: option.splits)

lemma length_pad: "length (pad w n) = w"
  by (induction w arbitrary: n) simp_all

lemma digits_value_pad:
  "n < 10 ^ w \<Longrightarrow> digits_value acc (pad w n) = Some (acc * 10 ^ w + n)"
proof (induction w arbitrary: n acc)
  case 0
  then show ?case by simp
next
  case (Suc w)
  have "n div 10 < 10 ^ w" using Suc.prems by (simp add: less_mult_imp_div_less mult.commute)
  then have "digits_value acc (pad w (n div 10)) = Some (acc * 10 ^ w + n div 10)"
    by (rule Suc.IH)
  then show ?case
    by (simp add: digits_value_append digit_value_digit algebra_simps)
qed

lemma fixed_digits_pad:
  "n < 10 ^ w \<Longrightarrow> fixed_digits w (pad w n @ rest) = Some (n, rest)"
  by (simp add: fixed_digits_def length_pad digits_value_pad)

lemma literal_Cons: "literal c (c # rest) = Some rest"
  by (simp add: literal_def)

lemma pad_Suc_Cons: "\<exists>k<10. \<exists>ds. pad (Suc w) n = digit k # ds"
proof (induction w arbitrary: n)
  case 0
  show ?case by (rule exI [of _ "n mod 10"]) simp
next
  case (Suc w)
  obtain k ds where "k < 10" "pad (Suc w) (n div 10) = digit k # ds"
    using Suc.IH [of "n div 10"] by blast
  then show ?case by (auto simp del: pad.simps simp add: pad.simps(2) [of "Suc w"])
qed

lemma parse_year_digits:
  assumes "0 \<le> y" and "y \<le> 9999"
  shows "parse_year (year_string y @ rest) = Some (y, rest)"
proof -
  have four: "(4::nat) = Suc 3" by simp
  obtain k ds where k: "k < 10" "pad 4 (nat y) = digit k # ds"
    using pad_Suc_Cons [of 3 "nat y"] unfolding four by blast
  have sign: "digit k \<noteq> CHR ''+''" "digit k \<noteq> CHR ''-''"
    using digit_not_sign [OF k(1)] by simp_all
  have "nat y < 10 ^ 4" using assms by simp
  then have fd: "fixed_digits 4 (pad 4 (nat y) @ rest) = Some (nat y, rest)"
    by (rule fixed_digits_pad)
  have ys: "year_string y = pad 4 (nat y)"
    using assms by (simp add: year_string_def)
  have "parse_year (digit k # ds @ rest)
      = map_option (\<lambda>(v, r). (int v, r)) (fixed_digits 4 (digit k # ds @ rest))"
    using sign by (simp add: parse_year_def)
  also have "digit k # ds @ rest = pad 4 (nat y) @ rest"
    by (simp only: k(2) append.simps)
  finally show ?thesis
    using assms(1) by (simp only: ys fd option.map prod.case int_nat_eq if_True)
qed

lemma parse_year_signed:
  assumes "- 1000000 < y" and "y < 1000000" and "y < 0 \<or> 9999 < y"
  shows "parse_year (year_string y @ rest) = Some (y, rest)"
proof -
  define n where "n = nat \<bar>y\<bar>"
  have "n < 10 ^ 6" using assms(1,2) by (simp add: n_def)
  then have fd: "fixed_digits 6 (pad 6 n @ rest) = Some (n, rest)"
    by (rule fixed_digits_pad)
  show ?thesis
  proof (cases "y < 0")
    case True
    then have ys: "year_string y @ rest = CHR ''-'' # pad 6 n @ rest"
      by (simp add: year_string_def n_def)
    have nz: "n \<noteq> 0" using True by (simp add: n_def)
    have val: "- int n = y" using True by (simp add: n_def)
    show ?thesis
      unfolding ys using nz val by (simp add: parse_year_def fd)
  next
    case False
    then have big: "9999 < y" using assms(3) by simp
    then have ys: "year_string y @ rest = CHR ''+'' # pad 6 n @ rest"
      by (simp add: year_string_def n_def)
    have val: "int n = y" using big by (simp add: n_def)
    show ?thesis
      unfolding ys using val by (simp add: parse_year_def fd)
  qed
qed

lemma parse_year_string:
  assumes "- 1000000 < y" and "y < 1000000"
  shows "parse_year (year_string y @ rest) = Some (y, rest)"
proof (cases "0 \<le> y \<and> y \<le> 9999")
  case True
  then show ?thesis by (simp add: parse_year_digits)
next
  case False
  then have "y < 0 \<or> 9999 < y" by auto
  with assms show ?thesis by (rule parse_year_signed)
qed

lemma parse_fraction_pad:
  "ms < 1000 \<Longrightarrow> parse_fraction (CHR ''.'' # pad 3 ms @ ''Z'') = Some ms"
  using fixed_digits_pad [of ms 3 "''Z''"]
  by (simp add: parse_fraction_def literal_def)

lemma in_time_range_year: "in_time_range t \<Longrightarrow> - 1000000 < year t \<and> year t < 1000000"
  by (auto simp: in_time_range_def)

lemma parse_toISOString:
  assumes "valid_date_time t"
  shows "parse_iso_utc (toISOString t) = Some t"
proof -
  have y: "- 1000000 < year t" "year t < 1000000"
    using assms in_time_range_year [of t] by (simp_all add: valid_date_time_def)
  have "day t \<le> 31"
    using assms by (auto simp: valid_date_time_def days_in_month_def split: if_splits)
  then have small: "month t < 10 ^ 2" "day t < 10 ^ 2" "hour t < 10 ^ 2" "minute t < 10 ^ 2"
      "second t < 10 ^ 2" "millisecond t < 1000"
    using assms by (simp_all add: valid_date_time_def)
  have whole: "\<lparr>year = year t, month = month t, day = day t, hour = hour t,
      minute = minute t, second = second t, millisecond = millisecond t\<rparr> = t"
    by (cases t) simp
  have "parse_iso_utc (toISOString t) =
      (let t' = \<lparr>year = year t, month = month t, day = day t, hour = hour t,
                 minute = minute t, second = second t, millisecond = millisecond t\<rparr>
       in if valid_date_time t' then Some t' else None)"
    by (simp only: toISOString_def parse_iso_utc_def append_assoc append.simps
        parse_year_string [OF y] literal_Cons
        fixed_digits_pad [OF small(1)] fixed_digits_pad [OF small(2)]
        fixed_digits_pad [OF small(3)] fixed_digits_pad [OF small(4)]
        fixed_digits_pad [OF small(5)] parse_fraction_pad [OF small(6)]
        Option.bind.simps prod.case)
  also have "\<dots> = Some t"
    using assms by (simp only: whole Let_def if_True)
  finally show ?thesis .
qed

lemma toISOString_not_empty: "toISOString t \<noteq> []"
  by (simp add: toISOString_def)

subsection \<open>The calls of the fan-out\<close>

lemma map_updates_eq:
  "map_updates goodsInOrder goodService =
     (map (\<lambda>k. http_observable
                 (update_outcome goodService (length (update_calls goodService) + k)))
        [0..<length goodsInOrder],
      goodService\<lparr>update_calls := update_calls goodService
         @ map (\<lambda>g. (good_id g, good_amount g - good_in_order_amount g)) goodsInOrder\<rparr>)"
proof (induction goodsInOrder arbitrary: goodService)
  case Nil
  show ?case by simp
next
  case (Cons g rest)
  have shift: "[0..<length (g # rest)] = 0 # map Suc [0..<length rest]"
    using upt_Suc_shift [of "length rest"] by simp
  show ?case
    unfolding shift
    by (simp add: Cons.IH updateAmountByGoodId_def Let_def comp_def)
qed

subsection \<open>The join\<close>

lemma closed_join_notify: "closed j \<Longrightarrow> join_notify i n j = j"
  by (cases n) simp_all

lemma closed_join_source: "closed j \<Longrightarrow> join_source i source j = j"
  unfolding join_source_def
  by (induction source) (simp_all add: closed_join_notify)

lemma closed_join_rest:
  "closed j \<Longrightarrow> foldl (\<lambda>j i. if i < n then join_source i (sources ! i) j else j) j rest = j"
  by (induction rest) (simp_all add: closed_join_source)

lemma update_map_upt:
  "i < n \<Longrightarrow> (map f [0..<n])[i := v] = map (\<lambda>k. if k = i then v else f k) [0..<n]"
  by (simp add: list_eq_iff_nth_eq nth_list_update)

lemma distinct_length_less:
  assumes "distinct p" and "set p \<subseteq> {..<n}" and "i < n" and "i \<notin> set p"
  shows "length p < n"
proof -
  have "card (insert i (set p)) \<le> card {..<n}"
    using assms by (intro card_mono) auto
  moreover have "card (insert i (set p)) = Suc (length p)"
    using assms by (simp add: distinct_card)
  ultimately show ?thesis by simp
qed

text \<open>
  While some source is still missing and all that arrived have succeeded, the join has
  stored their responses and delivered nothing.
\<close>

lemma join_success_prefix:
  assumes "distinct p" and "set p \<subseteq> {..<length sources}"
    and "\<forall>k\<in>set p. sources ! k = [Next (r k), Complete]"
    and "length p < length sources"
  shows "foldl (\<lambda>j i. if i < length sources then join_source i (sources ! i) j else j)
           (join_start (length sources)) p
         = \<lparr>latest = map (\<lambda>k. if k \<in> set p then Some (r k) else None) [0..<length sources],
            active = length sources - length p, delivered = [], closed = False\<rparr>"
  using assms
proof (induction p rule: rev_induct)
  case Nil
  show ?case by (simp add: join_start_def map_replicate_const)
next
  case (snoc i p)
  let ?n = "length sources"
  have i: "i < ?n" "i \<notin> set p" "sources ! i = [Next (r i), Complete]"
    using snoc.prems by auto
  have len: "Suc (length p) < ?n" using snoc.prems by simp
  have IH: "foldl (\<lambda>j i. if i < ?n then join_source i (sources ! i) j else j) (join_start ?n) p
         = \<lparr>latest = map (\<lambda>k. if k \<in> set p then Some (r k) else None) [0..<?n],
            active = ?n - length p, delivered = [], closed = False\<rparr>"
    using snoc.prems by (intro snoc.IH) auto
  have "\<exists>m<?n. m \<notin> set (p @ [i])"
  proof (rule ccontr)
    assume "\<not> (\<exists>m<?n. m \<notin> set (p @ [i]))"
    then have "{..<?n} \<subseteq> set (p @ [i])" by auto
    then have "card {..<?n} \<le> card (set (p @ [i]))" by (intro card_mono) auto
    also have "\<dots> \<le> length (p @ [i])" by (rule card_length)
    finally show False using len by simp
  qed
  then obtain m where m: "m < ?n" "m \<notin> set (p @ [i])" by blast
  have none: "None \<in> set (map (\<lambda>k. if k = i then Some (r i)
                                   else if k \<in> set p then Some (r k) else None) [0..<?n])"
    using m by (auto simp: image_iff intro!: bexI [of _ m])
  have same: "map (\<lambda>k. if k = i then Some (r i) else if k \<in> set p then Some (r k) else None)
        [0..<?n]
      = map (\<lambda>k. if k \<in> set (p @ [i]) then Some (r k) else None) [0..<?n]"
    by (intro map_cong refl) auto
  show ?case
    using i len none
    by (simp add: IH join_source_def update_map_upt same [symmetric])
qed

lemma join_success_all:
  assumes "distinct p" and "set p = {..<length sources}" and "sources \<noteq> []"
    and "\<forall>k<length sources. sources ! k = [Next (r k), Complete]"
  shows "combineLatest sources p = [Next (map r [0..<length sources]), Complete]"
proof -
  let ?n = "length sources"
  have "length p = ?n" using assms(1,2) distinct_card [of p] by simp
  then have "p \<noteq> []" using assms(3) by auto
  then obtain q i where p: "p = q @ [i]" by (metis rev_exhaust)
  have i: "i < ?n" "i \<notin> set q" "sources ! i = [Next (r i), Complete]"
    using assms p by auto
  have q: "distinct q" "set q \<subseteq> {..<?n}" "\<forall>k\<in>set q. sources ! k = [Next (r k), Complete]"
      "length q < ?n"
    using assms p \<open>length p = ?n\<close> by auto
  have all: "map (\<lambda>k. if k = i then Some (r i) else if k \<in> set q then Some (r k) else None)
        [0..<?n]
      = map (\<lambda>k. Some (r k)) [0..<?n]"
    using assms(2) p by (intro map_cong refl) auto
  have act: "?n - length q - 1 = 0" using \<open>length p = ?n\<close> p by simp
  show ?thesis
    using i assms(3) act
    by (simp add: combineLatest_def p join_success_prefix [OF q] join_source_def
        update_map_upt all comp_def Let_def image_iff)
qed

lemma join_success_early:
  assumes "distinct p" and "set p \<subseteq> {..<length sources}" and "length p < length sources"
    and "\<forall>k\<in>set p. sources ! k = [Next (r k), Complete]"
  shows "combineLatest sources p = []"
proof -
  have "sources \<noteq> []" using assms(3) by auto
  then show ?thesis
    by (simp add: combineLatest_def join_success_prefix [OF assms(1,2,4,3)])
qed

text \<open>The first failure to arrive ends the join, whatever arrives after it.\<close>

lemma join_failure_first:
  assumes "distinct (q @ i # rest)" and "set q \<subseteq> {..<length sources}" and "i < length sources"
    and "\<forall>k\<in>set q. sources ! k = [Next (r k), Complete]"
    and "sources ! i = [Error e]"
  shows "combineLatest sources (q @ i # rest) = [Error e]"
proof -
  let ?n = "length sources"
  have q: "distinct q" "set q \<subseteq> {..<?n}" "\<forall>k\<in>set q. sources ! k = [Next (r k), Complete]"
    using assms by auto
  have "length q < ?n"
    using assms by (intro distinct_length_less [of q ?n i]) auto
  note pre = join_success_prefix [OF q this]
  have "sources \<noteq> []" using assms(3) by auto
  then show ?thesis
    using assms(3,5)
    by (simp add: combineLatest_def pre join_source_def closed_join_rest)
qed

subsection \<open>The outcome of the fan-out\<close>

lemma decrementGoodsCountOnShip_eq:
  "decrementGoodsCountOnShip goodsInOrder goodService =
     (combineLatest
        (map (\<lambda>k. http_observable
                    (update_outcome goodService (length (update_calls goodService) + k)))
           [0..<length goodsInOrder]),
      goodService\<lparr>update_calls := update_calls goodService
         @ map (\<lambda>g. (good_id g, good_amount g - good_in_order_amount g)) goodsInOrder\<rparr>)"
  by (simp add: decrementGoodsCountOnShip_def map_updates_eq)

lemma decrement_all_succeed:
  assumes "goodsInOrder \<noteq> []" and "distinct arrival"
    and "set arrival = {..<length goodsInOrder}"
    and "\<forall>k<length goodsInOrder.
           update_outcome goodService (length (update_calls goodService) + k) = Inr (res k)"
  shows "fst (decrementGoodsCountOnShip goodsInOrder goodService) arrival
         = [Next (map res [0..<length goodsInOrder]), Complete]"
proof -
  let ?sources = "map (\<lambda>k. http_observable
       (update_outcome goodService (length (update_calls goodService) + k)))
     [0..<length goodsInOrder]"
  have "combineLatest ?sources arrival = [Next (map res [0..<length ?sources]), Complete]"
    using assms by (intro join_success_all) (simp_all add: http_observable_def)
  then show ?thesis by (simp add: decrementGoodsCountOnShip_eq)
qed

lemma decrement_waits:
  assumes "distinct (early @ later)" and "set (early @ later) = {..<length goodsInOrder}"
    and "later \<noteq> []"
    and "\<forall>k<length goodsInOrder.
           update_outcome goodService (length (update_calls goodService) + k) = Inr (res k)"
  shows "fst (decrementGoodsCountOnShip goodsInOrder goodService) early = []"
proof -
  let ?sources = "map (\<lambda>k. http_observable
       (update_outcome goodService (length (update_calls goodService) + k)))
     [0..<length goodsInOrder]"
  have "length (early @ later) = length goodsInOrder"
    using assms(1,2) distinct_card [of "early @ later"] by simp
  then have short: "length early < length ?sources"
    using assms(3) by (cases later) simp_all
  have sub: "set early \<subseteq> {..<length ?sources}" using assms(2) by auto
  have ok: "\<forall>k\<in>set early. ?sources ! k = [Next (res k), Complete]"
    using assms(4) sub by (auto simp: http_observable_def)
  have "distinct early" using assms(1) by simp
  then have "combineLatest ?sources early = []"
    using sub short ok by (rule join_success_early)
  then show ?thesis by (simp add: decrementGoodsCountOnShip_eq)
qed

lemma decrement_one_fails:
  assumes "distinct arrival" and "set arrival = {..<length goodsInOrder}"
    and "\<exists>k<length goodsInOrder.
           isl (update_outcome goodService (length (update_calls goodService) + k))"
  shows "\<exists>k<length goodsInOrder. \<exists>e.
           update_outcome goodService (length (update_calls goodService) + k) = Inl e
           \<and> fst (decrementGoodsCountOnShip goodsInOrder goodService) arrival = [Error e]"
proof -
  let ?out = "\<lambda>k. update_outcome goodService (length (update_calls goodService) + k)"
  let ?sources = "map (\<lambda>k. http_observable (?out k)) [0..<length goodsInOrder]"
  have "\<exists>k\<in>set arrival. isl (?out k)" using assms(2,3) by auto
  then obtain q i rest where split: "arrival = q @ i # rest" "isl (?out i)"
      "\<forall>k\<in>set q. \<not> isl (?out k)"
    using split_list_first_prop [of arrival "\<lambda>k. isl (?out k)"] by blast
  obtain e where e: "?out i = Inl e" using split(2) by (auto simp: isl_def)
  have i: "i < length goodsInOrder" using assms(2) split(1) by auto
  have q: "set q \<subseteq> {..<length ?sources}" using assms(2) split(1) by auto
  have ok: "\<forall>k\<in>set q. ?sources ! k = [Next (projr (?out k)), Complete]"
  proof
    fix k assume k: "k \<in> set q"
    then have "\<not> isl (?out k)" using split(3) by simp
    then obtain v where "?out k = Inr v" by (cases "?out k") auto
    then show "?sources ! k = [Next (projr (?out k)), Complete]"
      using q k by (auto simp: http_observable_def)
  qed
  have dist: "distinct (q @ i # rest)" using assms(1) split(1) by simp
  have i': "i < length ?sources" using i by simp
  have err: "?sources ! i = [Error e]" using i e by (simp add: http_observable_def)
  have "combineLatest ?sources (q @ i # rest) = [Error e]"
    using dist q i' ok err by (rule join_failure_first)
  then show ?thesis
    using i e split(1) by (auto simp: decrementGoodsCountOnShip_eq)
qed

section \<open>Properties\<close>

text \<open>
  C4: \<open>compareOrder\<close> is the identity comparison. Two \<open>null\<close> references are equal, a
  present reference is never equal to \<open>null\<close>, two present references are equal exactly
  when \<open>getOrderIdentifier\<close> gives the same identifier; so every order equals itself.
\<close>

theorem compareOrder_identity:
  "compareOrder None None
   \<and> \<not> compareOrder (Some a) None
   \<and> \<not> compareOrder None (Some b)
   \<and> compareOrder (Some a) (Some b) = (getOrderIdentifier a = getOrderIdentifier b)
   \<and> compareOrder (Some a) (Some a)"
  by (simp add: compareOrder_def)

text \<open>
  C7: \<open>getSortQueryParam\<close> returns no directive for the empty predicate and otherwise the
  single string predicate, comma, \<open>asc\<close> or \<open>desc\<close>; an omitted argument is read from the
  fields of the service; the result depends on nothing else.
\<close>

theorem getSortQueryParam_format:
  "getSortQueryParam this (Some p) (Some a) =
     (if p = [] then [] else [p @ '','' @ (if a then ''asc'' else ''desc'')])
   \<and> getSortQueryParam this None None = getSortQueryParam this (Some (predicate this)) (Some (ascending this))
   \<and> getSortQueryParam this None (Some a) = getSortQueryParam this (Some (predicate this)) (Some a)
   \<and> getSortQueryParam this (Some p) None = getSortQueryParam this (Some p) (Some (ascending this))
   \<and> getSortQueryParam this (Some '''') (Some True) = []
   \<and> getSortQueryParam this (Some ''id'') (Some True) = [''id,asc'']
   \<and> getSortQueryParam this (Some ''id'') (Some False) = [''id,desc'']
   \<and> getSortQueryParam initial_sort_state None None = [''id,asc'']"
  by (simp add: getSortQueryParam_def ASC_def DESC_def initial_sort_state_def)

text \<open>
  C2: \<open>addOrderToCollectionIfMissing\<close> returns what the specification describes: the
  present candidates whose identifier is neither in the collection nor in an earlier
  candidate, in the order given, followed by the collection as it was. Null and absent
  candidates make no difference. On the collection of order 1 and the candidates 2, 1, 3
  the result is 2, 3, 1.
\<close>

theorem addOrderToCollectionIfMissing_merge:
  "addOrderToCollectionIfMissing collection candidates = merge_spec collection candidates
   \<and> addOrderToCollectionIfMissing collection (filter isPresent candidates)
       = addOrderToCollectionIfMissing collection candidates
   \<and> addOrderToCollectionIfMissing [\<lparr>ident = ''1''\<rparr>]
         [Present \<lparr>ident = ''2''\<rparr>, Present \<lparr>ident = ''1''\<rparr>, Present \<lparr>ident = ''3''\<rparr>]
       = [\<lparr>ident = ''2''\<rparr>, \<lparr>ident = ''3''\<rparr>, \<lparr>ident = ''1''\<rparr>]"
proof (intro conjI)
  show "addOrderToCollectionIfMissing collection candidates = merge_spec collection candidates"
    by (simp add: addOrderToCollectionIfMissing_def merge_spec_def accepted_candidates_def
        Let_def filterOrdersToAdd_index)
  show "addOrderToCollectionIfMissing collection (filter isPresent candidates)
       = addOrderToCollectionIfMissing collection candidates"
    by (simp add: addOrderToCollectionIfMissing_def)
  show "addOrderToCollectionIfMissing [\<lparr>ident = ''1''\<rparr>]
         [Present \<lparr>ident = ''2''\<rparr>, Present \<lparr>ident = ''1''\<rparr>, Present \<lparr>ident = ''3''\<rparr>]
       = [\<lparr>ident = ''2''\<rparr>, \<lparr>ident = ''3''\<rparr>, \<lparr>ident = ''1''\<rparr>]"
    by (simp add: addOrderToCollectionIfMissing_def isPresent_def getOrderIdentifier_def)
qed

text \<open>
  C9: if the identifiers of the collection are pairwise distinct, so are those of the
  collection returned, after one call and after any number of calls, whatever the
  candidates.
\<close>

theorem addOrderToCollectionIfMissing_no_duplicates:
  assumes "distinct (map getOrderIdentifier collection)"
  shows "distinct (map getOrderIdentifier (addOrderToCollectionIfMissing collection candidates))
    \<and> distinct (map getOrderIdentifier
          (addOrderToCollectionIfMissing_repeatedly collection calls))"
proof
  show "distinct (map getOrderIdentifier (addOrderToCollectionIfMissing collection candidates))"
    using assms by (rule addOrderToCollectionIfMissing_distinct)
  show "distinct (map getOrderIdentifier
          (addOrderToCollectionIfMissing_repeatedly collection calls))"
    using assms unfolding addOrderToCollectionIfMissing_repeatedly_def
    by (induction calls arbitrary: collection)
      (simp_all add: addOrderToCollectionIfMissing_distinct)
qed

theorem addOrderToCollectionIfMissing_no_duplicates_witness:
  "distinct (map getOrderIdentifier [\<lparr>ident = ''1''\<rparr>, \<lparr>ident = ''2''\<rparr>])
   \<and> distinct (map getOrderIdentifier
        (addOrderToCollectionIfMissing [\<lparr>ident = ''1''\<rparr>, \<lparr>ident = ''2''\<rparr>]
           [Present \<lparr>ident = ''2''\<rparr>, Null, Present \<lparr>ident = ''3''\<rparr>, Present \<lparr>ident = ''3''\<rparr>]))
   \<and> distinct (map getOrderIdentifier
        (addOrderToCollectionIfMissing_repeatedly [\<lparr>ident = ''1''\<rparr>, \<lparr>ident = ''2''\<rparr>]
           [[Present \<lparr>ident = ''2''\<rparr>, Present \<lparr>ident = ''3''\<rparr>],
            [Present \<lparr>ident = ''3''\<rparr>, Undefined, Present \<lparr>ident = ''4''\<rparr>]]))"
proof -
  have h: "distinct (map getOrderIdentifier [\<lparr>ident = ''1''\<rparr>, \<lparr>ident = ''2''\<rparr>])"
    by (simp add: getOrderIdentifier_def)
  show ?thesis
    using h addOrderToCollectionIfMissing_no_duplicates [OF h,
        of "[Present \<lparr>ident = ''2''\<rparr>, Null, Present \<lparr>ident = ''3''\<rparr>, Present \<lparr>ident = ''3''\<rparr>]"
           "[[Present \<lparr>ident = ''2''\<rparr>, Present \<lparr>ident = ''3''\<rparr>],
             [Present \<lparr>ident = ''3''\<rparr>, Undefined, Present \<lparr>ident = ''4''\<rparr>]]"]
    by simp
qed

text \<open>
  C3, as the code has it: when every candidate is null or absent, the reference of the
  collection passed in is returned and the store is as it was; when some candidate is
  present, accepted or not, the result is a newly allocated array (holding the accepted
  candidates followed by the elements of the collection), and the arrays that were there
  are untouched.
\<close>

theorem addOrderToCollectionIfMissing_reference:
  assumes "orderCollection < length store"
  shows "(set ordersToCheck \<subseteq> {Undefined, Null} \<longrightarrow>
            addOrderToCollectionIfMissing_ref orderCollection ordersToCheck store
              = (orderCollection, store))
    \<and> (\<not> set ordersToCheck \<subseteq> {Undefined, Null} \<longrightarrow>
            addOrderToCollectionIfMissing_ref orderCollection ordersToCheck store
              = (length store,
                 store @ [addOrderToCollectionIfMissing (store ! orderCollection) ordersToCheck])
            \<and> length store \<noteq> orderCollection)"
  using assms no_present_candidate [of ordersToCheck]
  by (auto simp: addOrderToCollectionIfMissing_ref_def addOrderToCollectionIfMissing_def
      new_array_def Let_def)

theorem addOrderToCollectionIfMissing_reference_witness:
  "(0::nat) < length [[\<lparr>ident = ''1''\<rparr>]]
   \<and> set [Null, Undefined :: string order_id optional] \<subseteq> {Undefined, Null}
   \<and> addOrderToCollectionIfMissing_ref 0 [Null, Undefined] [[\<lparr>ident = ''1''\<rparr>]]
       = (0, [[\<lparr>ident = ''1''\<rparr>]])
   \<and> \<not> set [Null, Present \<lparr>ident = ''2''\<rparr>] \<subseteq> {Undefined, Null}
   \<and> addOrderToCollectionIfMissing_ref 0 [Null, Present \<lparr>ident = ''2''\<rparr>] [[\<lparr>ident = ''1''\<rparr>]]
       = (1, [[\<lparr>ident = ''1''\<rparr>], [\<lparr>ident = ''2''\<rparr>, \<lparr>ident = ''1''\<rparr>]])"
proof -
  have h: "(0::nat) < length [[\<lparr>ident = ''1''\<rparr>]]" by simp
  have a: "addOrderToCollectionIfMissing [\<lparr>ident = ''1''\<rparr>] [Null, Present \<lparr>ident = ''2''\<rparr>]
      = [\<lparr>ident = ''2''\<rparr>, \<lparr>ident = ''1''\<rparr>]"
    by (simp add: addOrderToCollectionIfMissing_def isPresent_def getOrderIdentifier_def)
  show ?thesis
    using addOrderToCollectionIfMissing_reference [OF h, of "[Null, Undefined]"]
      addOrderToCollectionIfMissing_reference [OF h, of "[Null, Present \<lparr>ident = ''2''\<rparr>]"] a
    by simp
qed

text \<open>
  The claim C3 as stated fails when a candidate is present but a duplicate: no candidate
  is accepted, the array returned has the elements of the collection, and it is a new
  array, at reference 1, not the collection at reference 0.
\<close>

theorem addOrderToCollectionIfMissing_reference_counterexample:
  "filterOrdersToAdd (map getOrderIdentifier [\<lparr>ident = ''1''\<rparr>]) [\<lparr>ident = ''1''\<rparr>] = []
   \<and> addOrderToCollectionIfMissing_ref 0 [Present \<lparr>ident = ''1''\<rparr>] [[\<lparr>ident = ''1''\<rparr>]]
       = (1, [[\<lparr>ident = ''1''\<rparr>], [\<lparr>ident = ''1''\<rparr>]])
   \<and> fst (addOrderToCollectionIfMissing_ref 0 [Present \<lparr>ident = ''1''\<rparr>] [[\<lparr>ident = ''1''\<rparr>]]) \<noteq> 0"
  by (simp add: addOrderToCollectionIfMissing_ref_def new_array_def isPresent_def
      getOrderIdentifier_def Let_def)

text \<open>
  C1, as the code has it, with the date library the service imports. A valid date survives
  the way to the wire and back; an invalid date is \<open>null\<close> on the wire. A wire string in
  the form the serialiser writes survives the way into memory and back, but the wire
  string \<open>2023-05-01T00:00:00Z\<close> comes back with its milliseconds written out, as
  \<open>2023-05-01T00:00:00.000Z\<close>. A payload without a date becomes an order whose date is
  \<open>undefined\<close>, never a default value; an order without a date becomes a payload whose
  date is an explicit \<open>null\<close>, which in turn reads back as \<open>undefined\<close>.
\<close>

theorem date_round_trip:
  "(valid_date_time t \<longrightarrow>
      convertDateFromServer (dayjs_parse other)
          (convertDateFromClient dayjs_toJSON \<lparr>ident = i, date = Present (Dayjs t), \<dots> = z\<rparr>)
        = \<lparr>ident = i, date = Present (Dayjs t), \<dots> = z\<rparr>)
   \<and> (valid_date_time t \<longrightarrow>
      convertDateFromClient dayjs_toJSON
          (convertDateFromServer (dayjs_parse other)
             \<lparr>ident = i, date = Present (toISOString t), \<dots> = z\<rparr>)
        = \<lparr>ident = i, date = Present (toISOString t), \<dots> = z\<rparr>)
   \<and> convertDateFromClient dayjs_toJSON
          (convertDateFromServer (dayjs_parse other)
             \<lparr>ident = i, date = Present ''2023-05-01T00:00:00Z'', \<dots> = z\<rparr>)
        = \<lparr>ident = i, date = Present ''2023-05-01T00:00:00.000Z'', \<dots> = z\<rparr>
   \<and> convertDateFromClient dayjs_toJSON \<lparr>ident = i, date = Present Invalid_Date, \<dots> = z\<rparr>
        = \<lparr>ident = i, date = Null, \<dots> = z\<rparr>
   \<and> convertDateFromServer dayjs \<lparr>ident = i, date = Undefined, \<dots> = z\<rparr>
        = \<lparr>ident = i, date = Undefined, \<dots> = z\<rparr>
   \<and> convertDateFromClient toJSON \<lparr>ident = i, date = Undefined, \<dots> = z\<rparr>
        = \<lparr>ident = i, date = Null, \<dots> = z\<rparr>
   \<and> convertDateFromServer dayjs \<lparr>ident = i, date = Null, \<dots> = z\<rparr>
        = \<lparr>ident = i, date = Undefined, \<dots> = z\<rparr>"
proof (intro conjI impI)
  assume v: "valid_date_time t"
  show "convertDateFromServer (dayjs_parse other)
          (convertDateFromClient dayjs_toJSON \<lparr>ident = i, date = Present (Dayjs t), \<dots> = z\<rparr>)
        = \<lparr>ident = i, date = Present (Dayjs t), \<dots> = z\<rparr>"
    by (simp add: convertDateFromServer_def convertDateFromClient_def dayjs_toJSON_def
        dayjs_parse_def toISOString_not_empty parse_toISOString [OF v])
  show "convertDateFromClient dayjs_toJSON
          (convertDateFromServer (dayjs_parse other)
             \<lparr>ident = i, date = Present (toISOString t), \<dots> = z\<rparr>)
        = \<lparr>ident = i, date = Present (toISOString t), \<dots> = z\<rparr>"
    by (simp add: convertDateFromServer_def convertDateFromClient_def dayjs_toJSON_def
        dayjs_parse_def toISOString_not_empty parse_toISOString [OF v])
next
  have p: "parse_iso_utc ''2023-05-01T00:00:00Z''
      = Some \<lparr>year = 2023, month = 5, day = 1, hour = 0, minute = 0, second = 0,
               millisecond = 0\<rparr>"
    by code_simp
  have s: "toISOString \<lparr>year = 2023, month = 5, day = 1, hour = 0, minute = 0, second = 0,
               millisecond = 0\<rparr> = ''2023-05-01T00:00:00.000Z''"
    by code_simp
  have ps: "dayjs_toJSON (dayjs_parse other ''2023-05-01T00:00:00Z'')
      = Some ''2023-05-01T00:00:00.000Z''"
    by (simp only: dayjs_parse_def p option.case dayjs_toJSON_def dayjs.case s)
  show "convertDateFromClient dayjs_toJSON
          (convertDateFromServer (dayjs_parse other)
             \<lparr>ident = i, date = Present ''2023-05-01T00:00:00Z'', \<dots> = z\<rparr>)
        = \<lparr>ident = i, date = Present ''2023-05-01T00:00:00.000Z'', \<dots> = z\<rparr>"
    by (simp add: convertDateFromServer_def convertDateFromClient_def ps)
qed (simp_all add: convertDateFromServer_def convertDateFromClient_def dayjs_toJSON_def)

text \<open>A witness: midnight of the first of May 2023, and the string written for it.\<close>

theorem date_round_trip_witness:
  "valid_date_time \<lparr>year = 2023, month = 5, day = 1, hour = 0, minute = 0, second = 0,
                    millisecond = 0\<rparr>
   \<and> toISOString \<lparr>year = 2023, month = 5, day = 1, hour = 0, minute = 0, second = 0,
                    millisecond = 0\<rparr> = ''2023-05-01T00:00:00.000Z''
   \<and> convertDateFromServer (dayjs_parse other_invalid)
        (convertDateFromClient dayjs_toJSON
           \<lparr>ident = ''7'',
            date = Present (Dayjs \<lparr>year = 2023, month = 5, day = 1, hour = 0, minute = 0,
                                  second = 0, millisecond = 0\<rparr>)\<rparr>)
       = \<lparr>ident = ''7'',
          date = Present (Dayjs \<lparr>year = 2023, month = 5, day = 1, hour = 0, minute = 0,
                                second = 0, millisecond = 0\<rparr>)\<rparr>
   \<and> convertDateFromClient dayjs_toJSON
        (convertDateFromServer (dayjs_parse other_invalid)
           \<lparr>ident = ''7'', date = Present ''2023-05-01T00:00:00.000Z''\<rparr>)
       = \<lparr>ident = ''7'', date = Present ''2023-05-01T00:00:00.000Z''\<rparr>"
proof -
  let ?t = "\<lparr>year = 2023, month = 5, day = 1, hour = 0, minute = 0, second = 0,
              millisecond = 0\<rparr>"
  have v: "valid_date_time ?t"
    by (simp add: valid_date_time_def days_in_month_def in_time_range_def)
  have s: "toISOString ?t = ''2023-05-01T00:00:00.000Z''"
    by code_simp
  show ?thesis
    using v s date_round_trip [where t = ?t and other = other_invalid and i = "''7''"
        and z = "()" and dayjs = "dayjs_parse other_invalid" and toJSON = dayjs_toJSON]
    by simp
qed

text \<open>
  The claim C1 as stated fails in three places: for a payload without a date the way
  back to the wire writes an explicit \<open>null\<close>; the wire string \<open>2023-05-01T00:00:00Z\<close>
  does not come back as the same string; and a date that is present but invalid does not
  come back at all.
\<close>

theorem date_round_trip_counterexample:
  "date (convertDateFromClient dayjs_toJSON
           (convertDateFromServer (dayjs_parse other_invalid)
              \<lparr>ident = ''7'', date = Undefined\<rparr>)) = Null
   \<and> date (convertDateFromClient dayjs_toJSON
           (convertDateFromServer (dayjs_parse other_invalid)
              \<lparr>ident = ''7'', date = Present ''2023-05-01T00:00:00Z''\<rparr>))
       = Present ''2023-05-01T00:00:00.000Z''
   \<and> ''2023-05-01T00:00:00.000Z'' \<noteq> ''2023-05-01T00:00:00Z''
   \<and> date (convertDateFromServer (dayjs_parse other_invalid)
           (convertDateFromClient dayjs_toJSON
              \<lparr>ident = ''7'', date = Present Invalid_Date\<rparr>)) = Undefined"
proof -
  have p: "parse_iso_utc ''2023-05-01T00:00:00Z''
      = Some \<lparr>year = 2023, month = 5, day = 1, hour = 0, minute = 0, second = 0,
               millisecond = 0\<rparr>"
    by code_simp
  have s: "toISOString \<lparr>year = 2023, month = 5, day = 1, hour = 0, minute = 0, second = 0,
               millisecond = 0\<rparr> = ''2023-05-01T00:00:00.000Z''"
    by code_simp
  have ps: "dayjs_toJSON (dayjs_parse other_invalid ''2023-05-01T00:00:00Z'')
      = Some ''2023-05-01T00:00:00.000Z''"
    by (simp only: dayjs_parse_def p option.case dayjs_toJSON_def dayjs.case s)
  have inv: "dayjs_toJSON Invalid_Date = None"
    by (simp add: dayjs_toJSON_def)
  show ?thesis
    by (simp add: convertDateFromServer_def convertDateFromClient_def ps inv)
qed

text \<open>
  C6, as the code has it: for a partial order without a date, \<open>partialUpdate\<close> hands the
  client one PATCH request, addressed by the identifier, whose payload has the date set
  to an explicit \<open>null\<close> and every other field as given.
\<close>

theorem partialUpdate_payload:
  "sent (snd (partialUpdate toJSON dayjs resourceUrl \<lparr>ident = i, date = Undefined, \<dots> = z\<rparr> http))
     = sent http @ [\<lparr>request_method = PATCH, url = resourceUrl @ ''/'' @ i,
                     payload = Some \<lparr>ident = i, date = Null, \<dots> = z\<rparr>, params = None\<rparr>]"
  by (simp add: partialUpdate_def http_send_def convertDateFromClient_def
      getOrderIdentifier_def Let_def)

text \<open>
  The claim C6 as stated fails: the payload of a partial order without a date has a date
  field, holding \<open>null\<close>.
\<close>

theorem partialUpdate_payload_counterexample:
  "map payload (sent (snd (partialUpdate Some id ''api/orders''
        \<lparr>ident = ''7'', date = Undefined\<rparr> \<lparr>sent = [], backend = Inl\<rparr>)))
     = [Some \<lparr>ident = ''7'', date = Null\<rparr>]
   \<and> map (map_option date) (map payload (sent (snd (partialUpdate Some id ''api/orders''
        \<lparr>ident = ''7'', date = Undefined\<rparr> \<lparr>sent = [], backend = Inl\<rparr>))))
     \<noteq> [Some Undefined]"
  by (simp add: partialUpdate_def http_send_def convertDateFromClient_def
      getOrderIdentifier_def Let_def)

text \<open>
  C8: the response transformation of \<open>query\<close> keeps a null body null (it does not make it
  an empty list); of an array body it converts every element by itself, the element at
  each position being the conversion of the element at that position, so that length and
  order are kept; the rest of the response is unchanged; and this transformed response
  is what the observable of \<open>query\<close> delivers when the request succeeds.
\<close>

theorem query_response_conversion:
  "convertResponseArrayFromServer dayjs \<lparr>body = None, \<dots> = h\<rparr> = \<lparr>body = None, \<dots> = h\<rparr>
   \<and> (\<exists>converted.
         convertResponseArrayFromServer dayjs \<lparr>body = Some items, \<dots> = h\<rparr>
           = \<lparr>body = Some converted, \<dots> = h\<rparr>
         \<and> length converted = length items
         \<and> (\<forall>k<length items. converted ! k = convertDateFromServer dayjs (items ! k)))
   \<and> (backend http \<lparr>request_method = GET, url = resourceUrl, payload = None,
                     params = Some (createRequestOption req)\<rparr> = Inr res \<longrightarrow>
        fst (query createRequestOption dayjs resourceUrl req http)
          = [Next (convertResponseArrayFromServer dayjs res), Complete])"
  by (simp add: convertResponseArrayFromServer_def query_def http_send_def rx_map_def
      http_observable_def)

theorem query_response_conversion_witness:
  "(1::nat) < length [\<lparr>ident = ''1'', date = Present ''2023-05-01T00:00:00Z''\<rparr>,
                      \<lparr>ident = ''2'', date = Null\<rparr>]
   \<and> backend \<lparr>sent = [], backend = (\<lambda>request. Inr
          \<lparr>body = Some [\<lparr>ident = ''1'', date = Present ''2023-05-01T00:00:00Z''\<rparr>,
                         \<lparr>ident = ''2'', date = Null\<rparr>]\<rparr>)\<rparr>
        \<lparr>request_method = GET, url = ''api/orders'', payload = None, params = Some (id ())\<rparr>
       = Inr \<lparr>body = Some [\<lparr>ident = ''1'', date = Present ''2023-05-01T00:00:00Z''\<rparr>,
                           \<lparr>ident = ''2'', date = Null\<rparr>]\<rparr>
   \<and> fst (query id id ''api/orders'' ()
             \<lparr>sent = [], backend = (\<lambda>request. Inr
                \<lparr>body = Some [\<lparr>ident = ''1'', date = Present ''2023-05-01T00:00:00Z''\<rparr>,
                               \<lparr>ident = ''2'', date = Null\<rparr>]\<rparr>)\<rparr>)
       = [Next \<lparr>body = Some [\<lparr>ident = ''1'', date = Present ''2023-05-01T00:00:00Z''\<rparr>,
                             \<lparr>ident = ''2'', date = Undefined\<rparr>]\<rparr>,
          Complete]"
  using query_response_conversion [where dayjs = id and h = "()"
      and items = "[\<lparr>ident = ''1'', date = Present ''2023-05-01T00:00:00Z''\<rparr>,
                    \<lparr>ident = ''2'', date = Null\<rparr>]"
      and http = "\<lparr>sent = [], backend = (\<lambda>request. Inr
          \<lparr>body = Some [\<lparr>ident = ''1'', date = Present ''2023-05-01T00:00:00Z''\<rparr>,
                         \<lparr>ident = ''2'', date = Null\<rparr>]\<rparr>)\<rparr>"
      and resourceUrl = "''api/orders''" and createRequestOption = id and req = "()"
      and res = "\<lparr>body = Some [\<lparr>ident = ''1'', date = Present ''2023-05-01T00:00:00Z''\<rparr>,
                         \<lparr>ident = ''2'', date = Null\<rparr>]\<rparr>"]
  by (auto simp: convertResponseArrayFromServer_def convertDateFromServer_def)

text \<open>
  C5, as the code has it. \<open>decrementGoodsCountOnShip\<close> calls the Good collaborator once
  for every entry, in order, with the entry's \<open>good_id\<close> and the remainder
  \<open>good_amount - good_in_order_amount\<close>. For a sequence that is not empty: when every
  update succeeds, the join delivers one value, the responses in the order of the
  entries, then completes, whatever the order in which the responses arrive, and it has
  delivered nothing while a response is outstanding; when some update fails, the join
  delivers the error of a failed update and no value. For the entries g1 (10, 3) and
  g2 (5, 5) the calls carry 7 and 0.
\<close>

theorem decrementGoodsCountOnShip_fan_out:
  "update_calls (snd (decrementGoodsCountOnShip goodsInOrder goodService))
     = update_calls goodService
       @ map (\<lambda>g. (good_id g, good_amount g - good_in_order_amount g)) goodsInOrder
   \<and> (goodsInOrder \<noteq> [] \<and> distinct (early @ later)
        \<and> set (early @ later) = {..<length goodsInOrder}
        \<and> (\<forall>k<length goodsInOrder.
              update_outcome goodService (length (update_calls goodService) + k) = Inr (res k))
       \<longrightarrow> fst (decrementGoodsCountOnShip goodsInOrder goodService) (early @ later)
             = [Next (map res [0..<length goodsInOrder]), Complete]
           \<and> (later \<noteq> [] \<longrightarrow>
                fst (decrementGoodsCountOnShip goodsInOrder goodService) early = []))
   \<and> (distinct arrival \<and> set arrival = {..<length goodsInOrder}
        \<and> (\<exists>k<length goodsInOrder.
              isl (update_outcome goodService (length (update_calls goodService) + k)))
       \<longrightarrow> (\<exists>k<length goodsInOrder. \<exists>e.
              update_outcome goodService (length (update_calls goodService) + k) = Inl e
              \<and> fst (decrementGoodsCountOnShip goodsInOrder goodService) arrival = [Error e]))
   \<and> update_calls (snd (decrementGoodsCountOnShip
          [\<lparr>good_id = ''g1'', good_amount = 10 :: int, good_in_order_amount = 3\<rparr>,
           \<lparr>good_id = ''g2'', good_amount = 5, good_in_order_amount = 5\<rparr>] shipped))
       = update_calls shipped @ [(''g1'', 7), (''g2'', 0)]"
proof (intro conjI impI)
  show "update_calls (snd (decrementGoodsCountOnShip goodsInOrder goodService))
     = update_calls goodService
       @ map (\<lambda>g. (good_id g, good_amount g - good_in_order_amount g)) goodsInOrder"
    by (simp add: decrementGoodsCountOnShip_eq)
next
  assume h: "goodsInOrder \<noteq> [] \<and> distinct (early @ later)
        \<and> set (early @ later) = {..<length goodsInOrder}
        \<and> (\<forall>k<length goodsInOrder.
              update_outcome goodService (length (update_calls goodService) + k) = Inr (res k))"
  then show "fst (decrementGoodsCountOnShip goodsInOrder goodService) (early @ later)
             = [Next (map res [0..<length goodsInOrder]), Complete]"
    by (intro decrement_all_succeed) simp_all
  assume "later \<noteq> []"
  with h show "fst (decrementGoodsCountOnShip goodsInOrder goodService) early = []"
    by (intro decrement_waits [of early later goodsInOrder goodService res]) simp_all
next
  assume "distinct arrival \<and> set arrival = {..<length goodsInOrder}
        \<and> (\<exists>k<length goodsInOrder.
              isl (update_outcome goodService (length (update_calls goodService) + k)))"
  then show "\<exists>k<length goodsInOrder. \<exists>e.
              update_outcome goodService (length (update_calls goodService) + k) = Inl e
              \<and> fst (decrementGoodsCountOnShip goodsInOrder goodService) arrival = [Error e]"
    by (intro decrement_one_fails) simp_all
next
  show "update_calls (snd (decrementGoodsCountOnShip
          [\<lparr>good_id = ''g1'', good_amount = 10 :: int, good_in_order_amount = 3\<rparr>,
           \<lparr>good_id = ''g2'', good_amount = 5, good_in_order_amount = 5\<rparr>] shipped))
       = update_calls shipped @ [(''g1'', 7), (''g2'', 0)]"
    by (simp add: decrementGoodsCountOnShip_eq)
qed

text \<open>
  A witness: the two entries of the example, the responses arriving in the opposite
  order; then the same entries with a remote end that fails the second update.
\<close>

theorem decrementGoodsCountOnShip_fan_out_witness:
  "[\<lparr>good_id = ''g1'', good_amount = 10 :: int, good_in_order_amount = 3\<rparr>,
    \<lparr>good_id = ''g2'', good_amount = 5, good_in_order_amount = 5\<rparr>] \<noteq> []
   \<and> distinct ([1] @ [0 :: nat])
   \<and> set ([1] @ [0 :: nat])
       = {..<length [\<lparr>good_id = ''g1'', good_amount = 10 :: int, good_in_order_amount = 3\<rparr>,
                     \<lparr>good_id = ''g2'', good_amount = 5, good_in_order_amount = 5\<rparr>]}
   \<and> update_outcome \<lparr>update_calls = [], update_outcome = (\<lambda>k. Inr k :: string + nat)\<rparr>
         (length (update_calls
            \<lparr>update_calls = [] :: (string \<times> int) list,
             update_outcome = (\<lambda>k. Inr k :: string + nat)\<rparr>) + 0) = Inr (id 0)
   \<and> update_outcome \<lparr>update_calls = [], update_outcome = (\<lambda>k. Inr k :: string + nat)\<rparr>
         (length (update_calls
            \<lparr>update_calls = [] :: (string \<times> int) list,
             update_outcome = (\<lambda>k. Inr k :: string + nat)\<rparr>) + 1) = Inr (id 1)
   \<and> fst (decrementGoodsCountOnShip
            [\<lparr>good_id = ''g1'', good_amount = 10 :: int, good_in_order_amount = 3\<rparr>,
             \<lparr>good_id = ''g2'', good_amount = 5, good_in_order_amount = 5\<rparr>]
            \<lparr>update_calls = [], update_outcome = (\<lambda>k. Inr k :: string + nat)\<rparr>) ([1] @ [0])
       = [Next [0, 1], Complete]
   \<and> [0 :: nat] \<noteq> []
   \<and> fst (decrementGoodsCountOnShip
            [\<lparr>good_id = ''g1'', good_amount = 10 :: int, good_in_order_amount = 3\<rparr>,
             \<lparr>good_id = ''g2'', good_amount = 5, good_in_order_amount = 5\<rparr>]
            \<lparr>update_calls = [], update_outcome = (\<lambda>k. Inr k :: string + nat)\<rparr>) [1]
       = []
   \<and> update_calls (snd (decrementGoodsCountOnShip
            [\<lparr>good_id = ''g1'', good_amount = 10 :: int, good_in_order_amount = 3\<rparr>,
             \<lparr>good_id = ''g2'', good_amount = 5, good_in_order_amount = 5\<rparr>]
            \<lparr>update_calls = [], update_outcome = (\<lambda>k. Inr k :: string + nat)\<rparr>))
       = [(''g1'', 7), (''g2'', 0)]
   \<and> distinct [0, 1 :: nat]
   \<and> set [0, 1 :: nat]
       = {..<length [\<lparr>good_id = ''g1'', good_amount = 10 :: int, good_in_order_amount = 3\<rparr>,
                     \<lparr>good_id = ''g2'', good_amount = 5, good_in_order_amount = 5\<rparr>]}
   \<and> isl (update_outcome
        \<lparr>update_calls = [] :: (string \<times> int) list,
         update_outcome = (\<lambda>k. if k = 1 then Inl ''503'' else Inr k :: string + nat)\<rparr> 1)
   \<and> fst (decrementGoodsCountOnShip
            [\<lparr>good_id = ''g1'', good_amount = 10 :: int, good_in_order_amount = 3\<rparr>,
             \<lparr>good_id = ''g2'', good_amount = 5, good_in_order_amount = 5\<rparr>]
            \<lparr>update_calls = [],
             update_outcome = (\<lambda>k. if k = 1 then Inl ''503'' else Inr k :: string + nat)\<rparr>)
          [0, 1]
       = [Error ''503'']"
proof -
  let ?goods = "[\<lparr>good_id = ''g1'', good_amount = 10 :: int, good_in_order_amount = 3\<rparr>,
                 \<lparr>good_id = ''g2'', good_amount = 5, good_in_order_amount = 5\<rparr>]"
  let ?up = "\<lparr>update_calls = [] :: (string \<times> int) list,
              update_outcome = (\<lambda>k. Inr k :: string + nat)\<rparr>"
  let ?down = "\<lparr>update_calls = [] :: (string \<times> int) list,
                update_outcome = (\<lambda>k. if k = 1 then Inl ''503'' else Inr k :: string + nat)\<rparr>"
  have s2: "{..<length ?goods} = {0, 1}" by auto
  have up: "?goods \<noteq> [] \<and> distinct ([1] @ [0 :: nat])
      \<and> set ([1] @ [0 :: nat]) = {..<length ?goods}
      \<and> (\<forall>k<length ?goods. update_outcome ?up (length (update_calls ?up) + k) = Inr (id k))"
    unfolding s2 by auto
  have down: "distinct [0, 1 :: nat] \<and> set [0, 1 :: nat] = {..<length ?goods}
      \<and> (\<exists>k<length ?goods. isl (update_outcome ?down (length (update_calls ?down) + k)))"
    unfolding s2 by (auto intro!: exI [of _ 1])
  have maps: "map id [0..<length ?goods] = [0, 1]"
    by (simp add: upt_rec)
  note inst_up = decrementGoodsCountOnShip_fan_out
    [where goodsInOrder = ?goods and goodService = ?up and early = "[1]" and later = "[0]"
       and res = id and arrival = "[]" and shipped = ?up]
  note inst_down = decrementGoodsCountOnShip_fan_out
    [where goodsInOrder = ?goods and goodService = ?down and early = "[]" and later = "[]"
       and res = id and arrival = "[0, 1]" and shipped = ?down]
  have r1: "fst (decrementGoodsCountOnShip ?goods ?up) ([1] @ [0]) = [Next [0, 1], Complete]"
    and r2: "fst (decrementGoodsCountOnShip ?goods ?up) [1] = []"
    and r3: "update_calls (snd (decrementGoodsCountOnShip ?goods ?up)) = [(''g1'', 7), (''g2'', 0)]"
    using inst_up up maps by simp_all
  obtain k e where ke: "k < length ?goods"
      "update_outcome ?down (length (update_calls ?down) + k) = Inl e"
      "fst (decrementGoodsCountOnShip ?goods ?down) [0, 1] = [Error e]"
    using inst_down down by blast
  have "e = ''503''" using ke(2) by (simp split: if_splits)
  then have r4: "fst (decrementGoodsCountOnShip ?goods ?down) [0, 1] = [Error ''503'']"
    using ke(3) by simp
  show ?thesis
    using up down r1 r2 r3 r4 by simp
qed

text \<open>
  The claim C5 as stated fails for the empty sequence: the result is not the (empty)
  sequence of response envelopes, for the join completes without delivering a value.
\<close>

theorem decrementGoodsCountOnShip_fan_out_counterexample:
  "fst (decrementGoodsCountOnShip ([] :: int good_in_order list)
          \<lparr>update_calls = [], update_outcome = (Inr :: nat \<Rightarrow> string + nat)\<rparr>) [] = [Complete]
   \<and> Next [] \<notin> set (fst (decrementGoodsCountOnShip ([] :: int good_in_order list)
          \<lparr>update_calls = [], update_outcome = (Inr :: nat \<Rightarrow> string + nat)\<rparr>) [])"
  by (simp add: decrementGoodsCountOnShip_def combineLatest_def)

text \<open>
  C10: for the empty sequence the observable returned by \<open>decrementGoodsCountOnShip\<close>
  completes and delivers no value at all, and no update is called; whereas for a sequence
  that is not empty, all of whose updates succeed, it delivers the list of the responses.
\<close>

theorem decrementGoodsCountOnShip_empty:
  "fst (decrementGoodsCountOnShip ([] :: ('n::minus, 'z) good_in_order_scheme list)
          goodService) arrival = [Complete]
   \<and> (\<forall>responses. Next responses
          \<notin> set (fst (decrementGoodsCountOnShip ([] :: ('n, 'z) good_in_order_scheme list)
                       goodService) arrival))
   \<and> snd (decrementGoodsCountOnShip ([] :: ('n, 'z) good_in_order_scheme list) goodService)
       = goodService
   \<and> ((goodsInOrder :: ('n, 'z) good_in_order_scheme list) \<noteq> [] \<and> distinct arrival
        \<and> set arrival = {..<length goodsInOrder}
        \<and> (\<forall>k<length goodsInOrder.
              update_outcome goodService (length (update_calls goodService) + k) = Inr (res k))
       \<longrightarrow> Next (map res [0..<length goodsInOrder])
             \<in> set (fst (decrementGoodsCountOnShip goodsInOrder goodService) arrival))"
proof (intro conjI impI)
  show "fst (decrementGoodsCountOnShip ([] :: ('n::minus, 'z) good_in_order_scheme list)
          goodService) arrival = [Complete]"
    by (simp add: decrementGoodsCountOnShip_def combineLatest_def)
  show "\<forall>responses. Next responses
          \<notin> set (fst (decrementGoodsCountOnShip ([] :: ('n::minus, 'z) good_in_order_scheme list)
                       goodService) arrival)"
    by (simp add: decrementGoodsCountOnShip_def combineLatest_def)
  show "snd (decrementGoodsCountOnShip ([] :: ('n::minus, 'z) good_in_order_scheme list)
          goodService) = goodService"
    by (simp add: decrementGoodsCountOnShip_def)
next
  assume "goodsInOrder \<noteq> [] \<and> distinct arrival \<and> set arrival = {..<length goodsInOrder}
        \<and> (\<forall>k<length goodsInOrder.
              update_outcome goodService (length (update_calls goodService) + k) = Inr (res k))"
  then have "fst (decrementGoodsCountOnShip goodsInOrder goodService) arrival
             = [Next (map res [0..<length goodsInOrder]), Complete]"
    by (intro decrement_all_succeed) simp_all
  then show "Next (map res [0..<length goodsInOrder])
             \<in> set (fst (decrementGoodsCountOnShip goodsInOrder goodService) arrival)"
    by simp
qed

theorem decrementGoodsCountOnShip_empty_witness:
  "[\<lparr>good_id = ''g1'', good_amount = 10 :: int, good_in_order_amount = 3\<rparr>,
    \<lparr>good_id = ''g2'', good_amount = 5, good_in_order_amount = 5\<rparr>] \<noteq> []
   \<and> distinct [1, 0 :: nat]
   \<and> set [1, 0 :: nat]
       = {..<length [\<lparr>good_id = ''g1'', good_amount = 10 :: int, good_in_order_amount = 3\<rparr>,
                     \<lparr>good_id = ''g2'', good_amount = 5, good_in_order_amount = 5\<rparr>]}
   \<and> update_outcome \<lparr>update_calls = [], update_outcome = (\<lambda>k. Inr k :: string + nat)\<rparr>
         (length (update_calls
            \<lparr>update_calls = [] :: (string \<times> int) list,
             update_outcome = (\<lambda>k. Inr k :: string + nat)\<rparr>) + 0) = Inr (id 0)
   \<and> update_outcome \<lparr>update_calls = [], update_outcome = (\<lambda>k. Inr k :: string + nat)\<rparr>
         (length (update_calls
            \<lparr>update_calls = [] :: (string \<times> int) list,
             update_outcome = (\<lambda>k. Inr k :: string + nat)\<rparr>) + 1) = Inr (id 1)
   \<and> Next [0, 1] \<in> set (fst (decrementGoodsCountOnShip
            [\<lparr>good_id = ''g1'', good_amount = 10 :: int, good_in_order_amount = 3\<rparr>,
             \<lparr>good_id = ''g2'', good_amount = 5, good_in_order_amount = 5\<rparr>]
            \<lparr>update_calls = [], update_outcome = (\<lambda>k. Inr k :: string + nat)\<rparr>) [1, 0])
   \<and> fst (decrementGoodsCountOnShip ([] :: int good_in_order list)
            \<lparr>update_calls = [], update_outcome = (\<lambda>k. Inr k :: string + nat)\<rparr>) [1, 0]
       = [Complete]"
proof -
  let ?goods = "[\<lparr>good_id = ''g1'', good_amount = 10 :: int, good_in_order_amount = 3\<rparr>,
                 \<lparr>good_id = ''g2'', good_amount = 5, good_in_order_amount = 5\<rparr>]"
  let ?up = "\<lparr>update_calls = [] :: (string \<times> int) list,
              update_outcome = (\<lambda>k. Inr k :: string + nat)\<rparr>"
  have s2: "{..<length ?goods} = {0, 1}" by auto
  have up: "?goods \<noteq> [] \<and> distinct [1, 0 :: nat] \<and> set [1, 0 :: nat] = {..<length ?goods}
      \<and> (\<forall>k<length ?goods. update_outcome ?up (length (update_calls ?up) + k) = Inr (id k))"
    unfolding s2 by auto
  have maps: "map id [0..<length ?goods] = [0, 1]"
    by (simp add: upt_rec)
  note inst = decrementGoodsCountOnShip_empty
    [where goodsInOrder = ?goods and goodService = ?up and arrival = "[1, 0]" and res = id]
  show ?thesis
    using inst up maps by simp
qed

end
